theory Spec2Isabelle
  imports Main
begin

text \<open>
  A model of the userscript \<^emph>\<open>Discogs: Hide listings from blocked sellers\<close>: the canonical
  key of a seller name, the blocklist kept in \<open>localStorage\<close>, the pass that marks and
  hides the listing rows of blocked sellers, the toggle that reveals them, and the Save
  button of the options dialog. Every function of the script keeps its name. Mutation of
  the document, of \<open>localStorage\<close> and of the script's variables is explicit state
  passing; an exception that leaves a function is a value of type \<open>exn\<close>.
\<close>

section \<open>JavaScript strings\<close>

text \<open>
  The userscript works on JavaScript strings, sequences of UTF-16 code units. The model
  writes them as \<^typ>\<open>string\<close>, one \<^typ>\<open>char\<close> per code unit, and so covers the
  strings whose code units are U+0000 .. U+00FF (ASCII and Latin-1). On that range the
  built-ins below are written out as ECMAScript defines them.
\<close>

definition toLowerCase_char :: "char \<Rightarrow> char" where
  \<comment> \<open>\<open>A-Z\<close> and the Latin-1 capitals U+00C0 .. U+00DE (without the sign U+00D7) move up by 32.\<close>
  "toLowerCase_char c =
     (let n = (of_char c :: nat)
      in if (65 \<le> n \<and> n \<le> 90) \<or> (192 \<le> n \<and> n \<le> 222 \<and> n \<noteq> 215)
         then char_of (n + 32) else c)"

definition toLowerCase :: "string \<Rightarrow> string" where
  "toLowerCase s = map toLowerCase_char s"

definition is_az09 :: "char \<Rightarrow> bool" where
  \<comment> \<open>the character class \<open>[a-z0-9]\<close>\<close>
  "is_az09 c = (let n = (of_char c :: nat) in (97 \<le> n \<and> n \<le> 122) \<or> (48 \<le> n \<and> n \<le> 57))"

definition is_white_space :: "char \<Rightarrow> bool" where
  \<comment> \<open>what \<open>String.prototype.trim\<close> strips: TAB, LF, VT, FF, CR, SP and NBSP\<close>
  "is_white_space c = ((of_char c :: nat) \<in> {9, 10, 11, 12, 13, 32, 160})"

definition trim :: "string \<Rightarrow> string" where
  "trim s = rev (dropWhile is_white_space (rev (dropWhile is_white_space s)))"

definition Boolean :: "string \<Rightarrow> bool" where
  \<comment> \<open>\<open>Boolean(x)\<close> on a string: the empty string is the only falsy one\<close>
  "Boolean x = (x \<noteq> [])"

definition regex_Canonicalize :: "char \<Rightarrow> char" where
  \<comment> \<open>how a regular expression with flag \<open>i\<close> (and no flag \<open>u\<close>) compares characters:
      by their upper case, where that is a single code unit of the model's range\<close>
  "regex_Canonicalize c =
     (let n = (of_char c :: nat)
      in if (97 \<le> n \<and> n \<le> 122) \<or> (224 \<le> n \<and> n \<le> 254 \<and> n \<noteq> 247)
         then char_of (n - 32) else c)"

fun match_literal_i :: "string \<Rightarrow> string \<Rightarrow> string option" where
  \<comment> \<open>match a literal pattern, ignoring case, at the start of the input; the rest of the input\<close>
  "match_literal_i [] s = Some s"
| "match_literal_i (p # ps) [] = None"
| "match_literal_i (p # ps) (c # cs) =
     (if regex_Canonicalize c = regex_Canonicalize p then match_literal_i ps cs else None)"

fun match_seller :: "string \<Rightarrow> string option" where
  \<comment> \<open>\<open>href.match(/\/seller\/([^\/?#]+)/i)\<close>: group 1 of the leftmost match, \<open>None\<close> for \<open>null\<close>\<close>
  "match_seller [] = None"
| "match_seller (c # cs) =
     (case match_literal_i ''/seller/'' (c # cs) of
        None \<Rightarrow> match_seller cs
      | Some rest \<Rightarrow>
          (let m1 = takeWhile (\<lambda>x. x \<notin> set ''/?#'') rest
           in if m1 \<noteq> [] then Some m1 else match_seller cs))"

fun split_on :: "char \<Rightarrow> string \<Rightarrow> string \<Rightarrow> string list" where
  \<comment> \<open>\<open>s.split(c)\<close>, with the piece read so far (reversed) as accumulator\<close>
  "split_on sep acc [] = [rev acc]"
| "split_on sep acc (c # cs) =
     (if c = sep then rev acc # split_on sep [] cs else split_on sep (c # acc) cs)"

fun split_lines :: "string \<Rightarrow> string \<Rightarrow> string list" where
  \<comment> \<open>\<open>s.split(/\r?\n/)\<close>, with the piece read so far (reversed) as accumulator\<close>
  "split_lines acc [] = [rev acc]"
| "split_lines acc [c] =
     (if c = CHR 0x0A then [rev acc, []] else [rev (c # acc)])"
| "split_lines acc (c # d # cs) =
     (if c = CHR 0x0D \<and> d = CHR 0x0A then rev acc # split_lines [] cs
      else if c = CHR 0x0A then rev acc # split_lines [] (d # cs)
      else split_lines (c # acc) (d # cs))"

section \<open>Sets, arrays and the heap\<close>

text \<open>
  A JavaScript \<open>Set\<close> keeps its elements in insertion order; it is modelled as the list of
  its elements in that order. \<open>new Set(xs)\<close> adds the elements of \<open>xs\<close> one by one,
  \<open>Array.from(set)\<close> is the list itself.
\<close>

definition Set_add :: "'a list \<Rightarrow> 'a \<Rightarrow> 'a list" where
  "Set_add s x = (if x \<in> set s then s else s @ [x])"

definition Set_new :: "'a list \<Rightarrow> 'a list" where
  "Set_new xs = foldl Set_add [] xs"

definition Set_has :: "'a list \<Rightarrow> 'a \<Rightarrow> bool" where
  "Set_has s x = (x \<in> set s)"

text \<open>
  Arrays are objects: \<open>loadBlockedList\<close> hands out arrays, and whether it hands out the
  array \<open>DEFAULT_BLOCKLIST\<close> itself or a copy is visible to a caller that mutates the
  result. The heap is the list of the arrays allocated so far, a reference is an index.
\<close>

type_synonym ref = nat
type_synonym heap = "string list list"

definition deref :: "heap \<Rightarrow> ref \<Rightarrow> string list" where
  \<comment> \<open>references come from \<open>alloc\<close>, so the second branch is not reached by the script\<close>
  "deref h r = (if r < length h then h ! r else [])"

definition alloc :: "heap \<Rightarrow> string list \<Rightarrow> ref \<times> heap" where
  "alloc h xs = (length h, h @ [xs])"

definition Array_from :: "heap \<Rightarrow> ref \<Rightarrow> ref \<times> heap" where
  \<comment> \<open>\<open>Array.from(a)\<close>: a new array with the elements of \<open>a\<close>\<close>
  "Array_from h a = alloc h (deref h a)"

definition DEFAULT_BLOCKLIST_elements :: "string list" where
  "DEFAULT_BLOCKLIST_elements =
     [''KUPIKU-COM'', ''KUPIKU-US'', ''KUPIKU-EU'', ''ongaku_express'', ''justicker'', ''magius'']"

definition DEFAULT_BLOCKLIST :: ref where
  \<comment> \<open>the array literal is the first object the script allocates\<close>
  "DEFAULT_BLOCKLIST = 0"

definition initial_heap :: heap where
  "initial_heap = [DEFAULT_BLOCKLIST_elements]"

definition STORAGE_KEY :: string where
  "STORAGE_KEY = ''discogsBlockedSellers''"

section \<open>The platform: exceptions, JSON, localStorage\<close>

datatype exn = SecurityError | QuotaExceededError | SyntaxError | URIError

datatype json =
    JNull
  | JBoolean bool
  | JNumber int
  | JString string
  | JArray "json list"
  | JObject "(string \<times> json) list"

text \<open>
  The built-ins the script calls and does not define are parameters of the model:
  \<open>JSON.parse\<close> (which throws a \<open>SyntaxError\<close> on text that is not JSON),
  \<open>JSON.stringify\<close> and \<open>decodeURIComponent\<close> (which throws a \<open>URIError\<close> on a
  malformed escape sequence). Of a number only its type is ever inspected.
\<close>

record platform =
  JSON_parse :: "string \<Rightarrow> exn + json"
  JSON_stringify :: "json \<Rightarrow> string"
  decodeURIComponent :: "string \<Rightarrow> exn + string"

text \<open>
  \<open>localStorage\<close>: a key-value store of strings. Access throws when storage is not
  available to the page, and a write throws when the store does not accept the value
  (the quota).
\<close>

record storage =
  available :: bool
  accepts :: "string \<Rightarrow> string \<Rightarrow> bool"
  items :: "string \<Rightarrow> string option"

definition getItem :: "storage \<Rightarrow> string \<Rightarrow> exn + string option" where
  "getItem st k = (if available st then Inr (items st k) else Inl SecurityError)"

definition setItem :: "storage \<Rightarrow> string \<Rightarrow> string \<Rightarrow> exn + storage" where
  "setItem st k v =
     (if \<not> available st then Inl SecurityError
      else if \<not> accepts st k v then Inl QuotaExceededError
      else Inr (st\<lparr>items := (items st)(k \<mapsto> v)\<rparr>))"

section \<open>The blocklist\<close>

definition canon :: "string option \<Rightarrow> string" where
  \<comment> \<open>\<open>None\<close> is \<open>null\<close>; \<open>!s\<close> holds of \<open>null\<close> and of the empty string\<close>
  "canon s =
     (case s of
        None \<Rightarrow> []
      | Some raw \<Rightarrow> if raw = [] then [] else filter is_az09 (toLowerCase raw))"

fun is_nonblank_string :: "json \<Rightarrow> bool" where
  \<comment> \<open>\<open>v => typeof v === 'string' && v.trim() !== ''\<close>\<close>
  "is_nonblank_string (JString v) = (trim v \<noteq> [])"
| "is_nonblank_string _ = False"

fun trim_string :: "json \<Rightarrow> string" where
  \<comment> \<open>\<open>v => v.trim()\<close>; it is applied behind the filter, to strings only\<close>
  "trim_string (JString v) = trim v"
| "trim_string _ = []"

definition loadBlockedList :: "platform \<Rightarrow> storage \<Rightarrow> heap \<Rightarrow> ref \<times> heap" where
  "loadBlockedList P st h =
     (case getItem st STORAGE_KEY of
        Inl e \<Rightarrow> Array_from h DEFAULT_BLOCKLIST
      | Inr None \<Rightarrow> Array_from h DEFAULT_BLOCKLIST
      | Inr (Some raw) \<Rightarrow>
          if raw = [] then Array_from h DEFAULT_BLOCKLIST
          else (case JSON_parse P raw of
                  Inl e \<Rightarrow> Array_from h DEFAULT_BLOCKLIST
                | Inr (JArray parsed) \<Rightarrow>
                    alloc h (map trim_string (filter is_nonblank_string parsed))
                | Inr _ \<Rightarrow> Array_from h DEFAULT_BLOCKLIST))"

definition saveBlockedList :: "platform \<Rightarrow> storage \<Rightarrow> string list \<Rightarrow> bool \<times> storage" where
  "saveBlockedList P st list =
     (let unique = Set_new (filter Boolean (map (\<lambda>x. trim (if x = [] then [] else x)) list))
      in case setItem st STORAGE_KEY (JSON_stringify P (JArray (map JString unique))) of
           Inr st' \<Rightarrow> (True, st')
         | Inl e \<Rightarrow> (False, st))"

definition buildBlockedSetFromSaved :: "platform \<Rightarrow> storage \<Rightarrow> heap \<Rightarrow> string list \<times> heap" where
  "buildBlockedSetFromSaved P st h =
     (case loadBlockedList P st h of
        (arr, h') \<Rightarrow> (Set_new (map (\<lambda>x. canon (Some x)) (deref h' arr)), h'))"

section \<open>Listing rows\<close>

text \<open>
  The document is the list of its \<open>tr\<close> elements in document order. Of a row the model
  keeps what the script reads and writes: whether it matches the selector of
  \<open>processListings\<close>, the elements the four queries of \<open>extractSellerFromRow\<close> find
  in it, its \<open>style.display\<close> and its three marker attributes (\<open>None\<close>: absent).
\<close>

record anchor =
  textContent :: string
  href :: string

record row =
  listing :: bool
  seller_block_link :: "anchor option"
  shipping_seller_username :: "string option"
  data_username :: "string option"
  any_seller_link :: "anchor option"
  style_display :: string
  data_blocked_by_userscript :: "string option"
  data_hidden_by_userscript :: "string option"
  data_userscript_processed :: "string option"

definition strategy1 :: "platform \<Rightarrow> row \<Rightarrow> exn + string option" where
  \<comment> \<open>\<open>.seller_block a[href*="/seller/"]\<close>: its text, else the path segment of its href\<close>
  "strategy1 P r =
     (case seller_block_link r of
        None \<Rightarrow> Inr None
      | Some sellerLink \<Rightarrow>
          (let text = (if textContent sellerLink = [] then [] else trim (textContent sellerLink))
           in if text \<noteq> [] then Inr (Some text)
              else (case match_seller (if href sellerLink = [] then [] else href sellerLink) of
                      None \<Rightarrow> Inr None
                    | Some m1 \<Rightarrow>
                        (case decodeURIComponent P m1 of
                           Inl e \<Rightarrow> Inl e
                         | Inr s \<Rightarrow> Inr (Some s)))))"

definition strategy2 :: "row \<Rightarrow> string option" where
  \<comment> \<open>\<open>.show-shipping-methods[data-seller-username]\<close>: the attribute, unless empty\<close>
  "strategy2 r =
     (case shipping_seller_username r of
        None \<Rightarrow> None
      | Some ds \<Rightarrow> if ds \<noteq> [] then Some ds else None)"

definition strategy3 :: "row \<Rightarrow> string option" where
  \<comment> \<open>\<open>[data-username]\<close>: the attribute, unless empty\<close>
  "strategy3 r =
     (case data_username r of
        None \<Rightarrow> None
      | Some du \<Rightarrow> if du \<noteq> [] then Some du else None)"

definition strategy4 :: "platform \<Rightarrow> row \<Rightarrow> exn + string option" where
  \<comment> \<open>\<open>a[href*="/seller/"]\<close> anywhere: the path segment of its href, else its text\<close>
  "strategy4 P r =
     (case any_seller_link r of
        None \<Rightarrow> Inr None
      | Some anySellerAnchor \<Rightarrow>
          (case match_seller (if href anySellerAnchor = [] then [] else href anySellerAnchor) of
             Some m1 \<Rightarrow>
               (case decodeURIComponent P m1 of
                  Inl e \<Rightarrow> Inl e
                | Inr s \<Rightarrow> Inr (Some s))
           | None \<Rightarrow>
               (let text = (if textContent anySellerAnchor = [] then []
                            else trim (textContent anySellerAnchor))
                in if text \<noteq> [] then Inr (Some text) else Inr None)))"

definition extractSellerFromRow :: "platform \<Rightarrow> row \<Rightarrow> exn + string option" where
  \<comment> \<open>\<open>Inr None\<close> is the result \<open>null\<close>, \<open>Inl e\<close> an exception that leaves the function.
      The guard \<open>if (!row)\<close> of this function, of \<open>hideRow\<close> and of \<open>unhideRow\<close> is for a
      \<open>null\<close> argument; the script passes elements of a \<open>NodeList\<close>, so the model has
      no such branch.\<close>
  "extractSellerFromRow P r =
     (case strategy1 P r of
        Inl e \<Rightarrow> Inl e
      | Inr (Some s) \<Rightarrow> Inr (Some s)
      | Inr None \<Rightarrow>
          (case strategy2 r of
             Some ds \<Rightarrow> Inr (Some ds)
           | None \<Rightarrow>
               (case strategy3 r of
                  Some du \<Rightarrow> Inr (Some du)
                | None \<Rightarrow> strategy4 P r)))"

definition hideRow :: "row \<Rightarrow> row" where
  "hideRow r = r\<lparr>style_display := ''none'',
                 data_blocked_by_userscript := Some ''true'',
                 data_hidden_by_userscript := Some ''true''\<rparr>"

definition unhideRow :: "row \<Rightarrow> row" where
  "unhideRow r = r\<lparr>style_display := [], data_hidden_by_userscript := None\<rparr>"

section \<open>The page and its operations\<close>

text \<open>
  The state of a page: the heap, \<open>localStorage\<close>, the \<open>tr\<close> elements of the document, the
  script's variables \<open>blockedSet\<close> and \<open>currentlyShowingHidden\<close>, and the display of the
  options dialog. The label and the button of the control bar, which \<open>updateControlUI\<close>
  rewrites, are not part of it: no operation on rows reads them.
\<close>

record page =
  heap :: heap
  localStorage :: storage
  rows :: "row list"
  blockedSet :: "string list"
  currentlyShowingHidden :: bool
  modal_display :: string

definition process_row :: "platform \<Rightarrow> string list \<Rightarrow> row \<Rightarrow> row \<times> exn option" where
  \<comment> \<open>the callback of \<open>rows.forEach\<close> in \<open>processListings\<close>: the row as the callback
      leaves it, and the exception that ended it, if one did\<close>
  "process_row P bs r =
     (if data_userscript_processed r \<noteq> None then (r, None)
      else
        (let r1 = r\<lparr>data_userscript_processed := Some ''true''\<rparr>
         in case extractSellerFromRow P r1 of
              Inl e \<Rightarrow> (r1, Some e)
            | Inr None \<Rightarrow> (r1, None)
            | Inr (Some sellerRaw) \<Rightarrow>
                if sellerRaw = [] then (r1, None)
                else (let sellerCanon = canon (Some sellerRaw)
                      in if Set_has bs sellerCanon then (hideRow r1, None) else (r1, None))))"

fun forEach :: "(row \<Rightarrow> row \<times> exn option) \<Rightarrow> row list \<Rightarrow> row list \<times> exn option" where
  \<comment> \<open>a callback that throws ends the traversal: the rows behind it are not visited\<close>
  "forEach f [] = ([], None)"
| "forEach f (r # rs) =
     (case f r of
        (r', Some e) \<Rightarrow> (r' # rs, Some e)
      | (r', None) \<Rightarrow> (case forEach f rs of (rs', e) \<Rightarrow> (r' # rs', e)))"

definition on_listing :: "(row \<Rightarrow> row \<times> exn option) \<Rightarrow> row \<Rightarrow> row \<times> exn option" where
  \<comment> \<open>the traversal is over the rows that match
      \<open>tr.shortcut_navigable, table.mpitems tr, #pjax_container tr\<close>\<close>
  "on_listing f r = (if listing r then f r else (r, None))"

definition processListings :: "platform \<Rightarrow> page \<Rightarrow> page \<times> exn option" where
  "processListings P s =
     (case buildBlockedSetFromSaved P (localStorage s) (heap s) of
        (bs, h') \<Rightarrow>
          (case forEach (on_listing (process_row P bs)) (rows s) of
             (rows', e) \<Rightarrow> (s\<lparr>heap := h', rows := rows', blockedSet := bs\<rparr>, e)))"

definition toggle_row :: "bool \<Rightarrow> row \<Rightarrow> row" where
  "toggle_row show r =
     (if data_blocked_by_userscript r = Some ''true''
      then (if show then unhideRow r
            else r\<lparr>style_display := ''none'', data_hidden_by_userscript := Some ''true''\<rparr>)
      else r)"

definition toggleHiddenRows :: "bool \<Rightarrow> page \<Rightarrow> page" where
  "toggleHiddenRows show s = s\<lparr>rows := map (toggle_row show) (rows s), currentlyShowingHidden := show\<rparr>"

definition clear_blocked :: "row \<Rightarrow> row" where
  \<comment> \<open>the first loop of the save handler, over \<open>tr[data-blocked-by-userscript="true"]\<close>\<close>
  "clear_blocked r =
     (if data_blocked_by_userscript r = Some ''true''
      then r\<lparr>data_blocked_by_userscript := None, data_hidden_by_userscript := None,
              style_display := []\<rparr>
      else r)"

definition clear_processed :: "row \<Rightarrow> row" where
  \<comment> \<open>the second loop of the save handler, over \<open>tr[data-userscript-processed]\<close>\<close>
  "clear_processed r =
     (if data_userscript_processed r \<noteq> None then r\<lparr>data_userscript_processed := None\<rparr> else r)"

definition parse_textarea :: "string \<Rightarrow> string list" where
  "parse_textarea raw =
     (let lines = filter Boolean (map trim (split_lines [] (if raw = [] then [] else raw)))
      in concat (map (\<lambda>l. filter Boolean (map trim (split_on CHR '','' [] l))) lines))"

definition saveBtn_click :: "platform \<Rightarrow> string \<Rightarrow> bool \<Rightarrow> page \<Rightarrow> page \<times> exn option" where
  \<comment> \<open>the click handler of the Save button, on the text of the textarea; \<open>confirm\<close> is the
      user's answer to the question asked when the list is empty\<close>
  "saveBtn_click P textarea_value confirm s =
     (let flattened = parse_textarea textarea_value
      in if flattened = [] \<and> \<not> confirm then (s, None)
         else (case saveBlockedList P (localStorage s) flattened of
                 (saved, st') \<Rightarrow>
                   if saved
                   then (case processListings P
                                (s\<lparr>localStorage := st',
                                   rows := map clear_processed (map clear_blocked (rows s)),
                                   currentlyShowingHidden := False\<rparr>) of
                           (s', None) \<Rightarrow> (s'\<lparr>modal_display := ''none''\<rparr>, None)
                         | (s', Some e) \<Rightarrow> (s', Some e))
                   else (s\<lparr>localStorage := st'\<rparr>, None)))"

section \<open>Notions of the specification\<close>

primrec dedup_first_seen :: "'a list \<Rightarrow> 'a list" where
  \<comment> \<open>deduplication that keeps the first occurrence of every element, in the order of
      these first occurrences: the head stays, its later copies go\<close>
  "dedup_first_seen [] = []"
| "dedup_first_seen (x # xs) = x # removeAll x (dedup_first_seen xs)"

definition normalised :: "string list \<Rightarrow> string list" where
  \<comment> \<open>the stored form of a list of entries: trimmed, the empty ones discarded, deduplicated\<close>
  "normalised list = dedup_first_seen (filter (\<lambda>x. x \<noteq> []) (map trim list))"

definition heap_ok :: "heap \<Rightarrow> bool" where
  \<comment> \<open>the array \<open>DEFAULT_BLOCKLIST\<close> is allocated and holds what the script wrote into it\<close>
  "heap_ok h =
     (DEFAULT_BLOCKLIST < length h \<and> deref h DEFAULT_BLOCKLIST = DEFAULT_BLOCKLIST_elements)"

definition blocked :: "row \<Rightarrow> bool" where
  \<comment> \<open>the flag \<^emph>\<open>blocked\<close>: the row matches \<open>tr[data-blocked-by-userscript="true"]\<close>\<close>
  "blocked r = (data_blocked_by_userscript r = Some ''true'')"

definition hidden :: "row \<Rightarrow> bool" where
  \<comment> \<open>the flag \<^emph>\<open>hidden\<close>: the row carries \<open>data-hidden-by-userscript="true"\<close>\<close>
  "hidden r = (data_hidden_by_userscript r = Some ''true'')"

definition processed :: "row \<Rightarrow> bool" where
  \<comment> \<open>the flag \<^emph>\<open>processed\<close>: the row has the attribute \<open>data-userscript-processed\<close>\<close>
  "processed r = (data_userscript_processed r \<noteq> None)"

definition flags_kept :: "row \<Rightarrow> row \<Rightarrow> bool" where
  \<comment> \<open>from the first row to the second no flag is cleared, no marker attribute is
      removed and a row that is not displayed stays so\<close>
  "flags_kept r r' =
     ((blocked r \<longrightarrow> blocked r') \<and> (hidden r \<longrightarrow> hidden r') \<and> (processed r \<longrightarrow> processed r') \<and>
      (data_blocked_by_userscript r \<noteq> None \<longrightarrow> data_blocked_by_userscript r' \<noteq> None) \<and>
      (data_hidden_by_userscript r \<noteq> None \<longrightarrow> data_hidden_by_userscript r' \<noteq> None) \<and>
      (style_display r = ''none'' \<longrightarrow> style_display r' = ''none''))"

definition markers_consistent :: "row \<Rightarrow> bool" where
  \<comment> \<open>what the script keeps true of every row: the attribute
      \<open>data-hidden-by-userscript\<close> is on blocked rows only\<close>
  "markers_consistent r = (data_hidden_by_userscript r \<noteq> None \<longrightarrow> blocked r)"

fun visited :: "(row \<Rightarrow> row \<times> exn option) \<Rightarrow> row list \<Rightarrow> nat" where
  \<comment> \<open>the number of rows that \<open>forEach\<close> calls the callback on: the traversal ends with
      the first call that throws\<close>
  "visited f [] = 0"
| "visited f (r # rs) =
     (case f r of
        (r', Some e) \<Rightarrow> 1
      | (r', None) \<Rightarrow> Suc (visited f rs))"

definition after_reset :: "page \<Rightarrow> storage \<Rightarrow> page" where
  \<comment> \<open>the page at the moment the save handler calls \<open>processListings\<close>\<close>
  "after_reset s st' =
     s\<lparr>localStorage := st', rows := map clear_processed (map clear_blocked (rows s)),
       currentlyShowingHidden := False\<rparr>"

section \<open>Sample inputs\<close>

fun join_comma :: "string list \<Rightarrow> string" where
  "join_comma [] = []"
| "join_comma [x] = x"
| "join_comma (x # y # ys) = x @ '','' @ join_comma (y # ys)"

fun sample_quote :: "json \<Rightarrow> string" where
  "sample_quote (JString s) = [CHR 0x22] @ s @ [CHR 0x22]"
| "sample_quote _ = ''null''"

definition sample_platform :: platform where
  \<comment> \<open>a platform to evaluate on: \<open>JSON.parse\<close> on the texts listed (any other text counts
      as malformed), \<open>JSON.stringify\<close> on arrays of strings that need no escapes, and
      \<open>decodeURIComponent\<close> on strings without \<open>%\<close> and on malformed escapes\<close>
  \<open>sample_platform =
     \<lparr>JSON_parse = (\<lambda>text.
        if text = ''[]'' then Inr (JArray [])
        else if text = ''["justicker"]'' then Inr (JArray [JString ''justicker''])
        else if text = ''["a",1]'' then Inr (JArray [JString ''a'', JNumber 1])
        else Inl SyntaxError),
      JSON_stringify = (\<lambda>v.
        case v of
          JArray vs \<Rightarrow> ''['' @ join_comma (map sample_quote vs) @ '']''
        | _ \<Rightarrow> ''null''),
      decodeURIComponent = (\<lambda>s. if CHR ''%'' \<in> set s then Inl URIError else Inr s)\<rparr>\<close>

definition sample_storage :: "nat \<Rightarrow> string option \<Rightarrow> storage" where
  \<comment> \<open>a readable store with a quota, holding the given text under the storage key\<close>
  "sample_storage quota v =
     \<lparr>available = True,
      accepts = (\<lambda>k w. length k + length w \<le> quota),
      items = (\<lambda>k. if k = STORAGE_KEY then v else None)\<rparr>"

definition default_keys :: "string list" where
  \<comment> \<open>the canonical keys of the default blocklist\<close>
  "default_keys =
     [''kupikucom'', ''kupikuus'', ''kupikueu'', ''ongakuexpress'', ''justicker'', ''magius'']"

definition sample_row :: "anchor option \<Rightarrow> row" where
  \<comment> \<open>a listing row as the page delivers it, with the given link in its seller block\<close>
  "sample_row link =
     \<lparr>listing = True, seller_block_link = link, shipping_seller_username = None,
      data_username = None, any_seller_link = link, style_display = [],
      data_blocked_by_userscript = None, data_hidden_by_userscript = None,
      data_userscript_processed = None\<rparr>"

definition justicker_row :: row where
  "justicker_row = sample_row (Some \<lparr>textContent = ''Justicker'', href = ''/seller/Justicker''\<rparr>)"

definition magius_row :: row where
  "magius_row = sample_row (Some \<lparr>textContent = ''magius'', href = ''/seller/magius''\<rparr>)"

definition hidden_magius_row :: row where
  \<comment> \<open>the row of seller magius as a pass leaves it while magius is on the blocklist\<close>
  "hidden_magius_row = hideRow (magius_row\<lparr>data_userscript_processed := Some ''true''\<rparr>)"

definition malformed_row :: row where
  \<comment> \<open>a row without seller block, whose only seller link has a path segment that is not
      valid percent-encoded UTF-8\<close>
  "malformed_row =
     (sample_row None)\<lparr>any_seller_link := Some \<lparr>textContent = ''caf'', href = ''/seller/caf%E9''\<rparr>\<rparr>"

definition sample_page :: "heap \<Rightarrow> string option \<Rightarrow> string list \<Rightarrow> row list \<Rightarrow> page" where
  \<comment> \<open>a page with the given heap, stored text, variable \<open>blockedSet\<close> and rows\<close>
  "sample_page h stored bs rs =
     \<lparr>heap = h, localStorage = sample_storage 100 stored, rows = rs,
      blockedSet = bs, currentlyShowingHidden = False, modal_display = []\<rparr>"

section \<open>Evaluation\<close>

text \<open>The definitions that the simplifier unfolds to run the model on the sample inputs.\<close>

lemmas string_evaluation =
  canon_def toLowerCase_def toLowerCase_char_def is_az09_def char_of_def bit_Suc_0_iff
  trim_def is_white_space_def Boolean_def regex_Canonicalize_def parse_textarea_def Let_def

lemmas blocklist_evaluation =
  Set_new_def Set_add_def Set_has_def deref_def alloc_def Array_from_def
  DEFAULT_BLOCKLIST_def DEFAULT_BLOCKLIST_elements_def initial_heap_def STORAGE_KEY_def
  getItem_def setItem_def loadBlockedList_def saveBlockedList_def buildBlockedSetFromSaved_def
  sample_platform_def sample_storage_def normalised_def default_keys_def heap_ok_def

lemmas row_evaluation =
  strategy1_def strategy2_def strategy3_def strategy4_def extractSellerFromRow_def
  hideRow_def unhideRow_def process_row_def on_listing_def toggle_row_def
  clear_blocked_def clear_processed_def
  sample_row_def justicker_row_def magius_row_def hidden_magius_row_def malformed_row_def
  blocked_def hidden_def processed_def markers_consistent_def

section \<open>Canonical keys\<close>

lemma toLowerCase_char_az09: "is_az09 c \<Longrightarrow> toLowerCase_char c = c"
  by (auto simp: is_az09_def toLowerCase_char_def Let_def)

lemma toLowerCase_az09: "\<forall>c\<in>set s. is_az09 c \<Longrightarrow> toLowerCase s = s"
  by (simp add: toLowerCase_def toLowerCase_char_az09 map_idI)

lemma canon_Some: "canon (Some raw) = filter is_az09 (toLowerCase raw)"
  by (simp add: canon_def toLowerCase_def)

lemma canon_az09: "c \<in> set (canon x) \<Longrightarrow> is_az09 c"
  by (cases x) (auto simp: canon_def split: if_splits)

text \<open>
  C3: \<open>canon\<close> is a total pure function (every HOL function is). On \<open>null\<close> and on the
  empty string it returns the empty string; on every string it returns the lower-cased
  input without the characters outside \<open>[a-z0-9]\<close>. The three spellings of the seller
  KUPIKU-EU have the same canonical key.
\<close>

theorem canon_total_lowercase_strip:
  "canon None = [] \<and> canon (Some []) = [] \<and>
   (\<forall>raw. canon (Some raw) = filter is_az09 (toLowerCase raw)) \<and>
   canon (Some ''KUPIKU-EU'') = ''kupikueu'' \<and>
   canon (Some ''kupiku.eu'') = ''kupikueu'' \<and>
   canon (Some ''KupikuEU'') = ''kupikueu''"
proof -
  have "canon (Some ''KUPIKU-EU'') = ''kupikueu''"
    by (simp add: string_evaluation)
  moreover have "canon (Some ''kupiku.eu'') = ''kupikueu''"
    by (simp add: string_evaluation)
  moreover have "canon (Some ''KupikuEU'') = ''kupikueu''"
    by (simp add: string_evaluation)
  moreover have "canon None = []" and "canon (Some []) = []"
    by (simp_all add: canon_def)
  moreover have "\<forall>raw. canon (Some raw) = filter is_az09 (toLowerCase raw)"
    by (simp add: canon_Some)
  ultimately show ?thesis
    by blast
qed

text \<open>
  C4: canonicalisation is idempotent: the canonical key of a canonical key is that key,
  for every string and for \<open>null\<close>.
\<close>

theorem canon_idempotent: "canon (Some (canon x)) = canon x"
proof -
  have all: "\<forall>c\<in>set (canon x). is_az09 c"
    by (simp add: canon_az09)
  then have "toLowerCase (canon x) = canon x"
    by (rule toLowerCase_az09)
  moreover have "filter is_az09 (canon x) = canon x"
    using all by (simp add: filter_id_conv)
  ultimately show ?thesis
    by (simp add: canon_Some)
qed

section \<open>The stored blocklist\<close>

lemma trim_no_leading: "dropWhile is_white_space (trim s) = trim s"
proof -
  define t where "t = dropWhile is_white_space s"
  have split: "t = trim s @ rev (takeWhile is_white_space (rev t))"
  proof -
    have "t = rev (takeWhile is_white_space (rev t) @ dropWhile is_white_space (rev t))"
      by (simp only: takeWhile_dropWhile_id rev_rev_ident)
    also have "\<dots> = rev (dropWhile is_white_space (rev t)) @ rev (takeWhile is_white_space (rev t))"
      by (simp only: rev_append)
    finally show ?thesis
      by (simp only: trim_def t_def)
  qed
  show ?thesis
  proof (cases "trim s")
    case Nil
    then show ?thesis by simp
  next
    case (Cons c cs)
    with split have "\<exists>rest. t = c # rest"
      by (metis append_Cons)
    then have "hd t = c" and "t \<noteq> []"
      by auto
    moreover have "t \<noteq> [] \<Longrightarrow> \<not> is_white_space (hd t)"
      unfolding t_def by (rule hd_dropWhile)
    ultimately show ?thesis
      using Cons by simp
  qed
qed

lemma trim_no_trailing: "dropWhile is_white_space (rev (trim s)) = rev (trim s)"
  by (simp add: trim_def)

lemma trim_idem: "trim (trim s) = trim s"
proof -
  have "trim (trim s) = rev (dropWhile is_white_space (rev (dropWhile is_white_space (trim s))))"
    by (simp add: trim_def)
  also have "\<dots> = rev (dropWhile is_white_space (rev (trim s)))"
    by (simp only: trim_no_leading)
  also have "\<dots> = trim s"
    by (simp only: trim_no_trailing rev_rev_ident)
  finally show ?thesis .
qed

lemma filter_removeAll_member:
  "x \<in> A \<Longrightarrow> filter (\<lambda>y. y \<notin> A) (removeAll x ys) = filter (\<lambda>y. y \<notin> A) ys"
  by (induction ys) auto

lemma filter_removeAll_snoc:
  "filter (\<lambda>y. y \<notin> set (acc @ [x])) ys = filter (\<lambda>y. y \<notin> set acc) (removeAll x ys)"
  by (induction ys) auto

lemma foldl_Set_add:
  "foldl Set_add acc xs = acc @ filter (\<lambda>y. y \<notin> set acc) (dedup_first_seen xs)"
proof (induction xs arbitrary: acc)
  case Nil
  then show ?case by simp
next
  case (Cons x xs)
  show ?case
  proof (cases "x \<in> set acc")
    case True
    then have "filter (\<lambda>y. y \<notin> set acc) (removeAll x (dedup_first_seen xs))
        = filter (\<lambda>y. y \<notin> set acc) (dedup_first_seen xs)"
      by (rule filter_removeAll_member)
    with True Cons.IH [of acc] show ?thesis
      by (simp add: Set_add_def)
  next
    case False
    have "filter (\<lambda>y. y \<notin> set (acc @ [x])) (dedup_first_seen xs)
        = filter (\<lambda>y. y \<notin> set acc) (removeAll x (dedup_first_seen xs))"
      by (rule filter_removeAll_snoc)
    with False Cons.IH [of "acc @ [x]"] show ?thesis
      by (simp add: Set_add_def)
  qed
qed

lemma Set_new_dedup: "Set_new xs = dedup_first_seen xs"
  by (simp add: Set_new_def foldl_Set_add)

lemma set_dedup_first_seen: "set (dedup_first_seen xs) = set xs"
  by (induction xs) auto

lemma distinct_dedup_first_seen: "distinct (dedup_first_seen xs)"
  by (induction xs) (auto simp: distinct_removeAll)

lemma dedup_first_seen_snoc:
  "dedup_first_seen (xs @ [x]) =
     (if x \<in> set xs then dedup_first_seen xs else dedup_first_seen xs @ [x])"
  by (induction xs) auto

lemma dedup_first_seen_remdups: "dedup_first_seen xs = rev (remdups (rev xs))"
  by (induction xs rule: rev_induct) (auto simp: dedup_first_seen_snoc)

lemma set_normalised: "set (normalised list) = trim ` set list - {[]}"
  by (auto simp: normalised_def set_dedup_first_seen)

lemma saveBlockedList_unique:
  "Set_new (filter Boolean (map (\<lambda>x. trim (if x = [] then [] else x)) list)) = normalised list"
proof -
  have "(\<lambda>x. trim (if x = [] then [] else x)) = trim"
    by auto
  moreover have "Boolean = (\<lambda>x. x \<noteq> [])"
    by (auto simp: Boolean_def)
  ultimately show ?thesis
    by (simp add: Set_new_dedup normalised_def)
qed

lemma saveBlockedList_eq:
  "saveBlockedList P st list =
     (case setItem st STORAGE_KEY (JSON_stringify P (JArray (map JString (normalised list)))) of
        Inr st' \<Rightarrow> (True, st')
      | Inl e \<Rightarrow> (False, st))"
  unfolding saveBlockedList_def saveBlockedList_unique Let_def ..

text \<open>
  C5: \<open>saveBlockedList\<close> writes the entries in their stored form (each one trimmed, the
  empty ones discarded, exact duplicates of a trimmed entry dropped behind its first
  occurrence) as JSON under the storage key. It returns \<open>true\<close> exactly when
  \<open>setItem\<close> returned, and \<open>false\<close> with the storage unchanged when \<open>setItem\<close> threw.
  Deduplication compares the trimmed strings themselves: KUPIKU-EU and kupiku-eu are
  both kept.
\<close>

theorem saveBlockedList_normalises_and_persists:
  "saveBlockedList P st list =
     (if available st \<and> accepts st STORAGE_KEY (JSON_stringify P (JArray (map JString (normalised list))))
      then (True, st\<lparr>items := (items st)(STORAGE_KEY \<mapsto>
                JSON_stringify P (JArray (map JString (normalised list))))\<rparr>)
      else (False, st)) \<and>
   fst (saveBlockedList P st list) =
     (\<exists>st'. setItem st STORAGE_KEY (JSON_stringify P (JArray (map JString (normalised list)))) = Inr st') \<and>
   normalised list = dedup_first_seen (filter (\<lambda>x. x \<noteq> []) (map trim list)) \<and>
   distinct (normalised list) \<and>
   set (normalised list) = trim ` set list - {[]} \<and>
   normalised [''KUPIKU-EU'', ''kupiku-eu''] = [''KUPIKU-EU'', ''kupiku-eu'']"
proof -
  have "normalised [''KUPIKU-EU'', ''kupiku-eu''] = [''KUPIKU-EU'', ''kupiku-eu'']"
    by (simp add: normalised_def string_evaluation)
  moreover have "distinct (normalised list)"
    by (simp add: normalised_def distinct_dedup_first_seen)
  moreover note set_normalised [of list]
  moreover have "saveBlockedList P st list =
     (if available st \<and> accepts st STORAGE_KEY (JSON_stringify P (JArray (map JString (normalised list))))
      then (True, st\<lparr>items := (items st)(STORAGE_KEY \<mapsto>
                JSON_stringify P (JArray (map JString (normalised list))))\<rparr>)
      else (False, st))"
    by (simp add: saveBlockedList_eq setItem_def)
  moreover have "fst (saveBlockedList P st list) =
     (\<exists>st'. setItem st STORAGE_KEY (JSON_stringify P (JArray (map JString (normalised list)))) = Inr st')"
    by (simp add: saveBlockedList_eq setItem_def)
  ultimately show ?thesis
    by (simp add: normalised_def)
qed

lemma deref_alloc: "alloc h xs = (arr, h') \<Longrightarrow> deref h' arr = xs"
  by (auto simp: alloc_def deref_def)

lemma normalised_trimmed: "x \<in> set (normalised list) \<Longrightarrow> trim x = x \<and> x \<noteq> []"
  by (auto simp: set_normalised trim_idem)

lemma load_normalised:
  "map trim_string (filter is_nonblank_string (map JString (normalised list))) = normalised list"
proof -
  have "\<forall>x\<in>set ys. trim x = x \<and> x \<noteq> [] \<Longrightarrow>
      map trim_string (filter is_nonblank_string (map JString ys)) = ys" for ys
    by (induction ys) auto
  then show ?thesis
    by (simp add: normalised_trimmed)
qed

lemma loadBlockedList_elements:
  "deref (snd (loadBlockedList P st h)) (fst (loadBlockedList P st h)) =
     (case getItem st STORAGE_KEY of
        Inl e \<Rightarrow> deref h DEFAULT_BLOCKLIST
      | Inr None \<Rightarrow> deref h DEFAULT_BLOCKLIST
      | Inr (Some raw) \<Rightarrow>
          if raw = [] then deref h DEFAULT_BLOCKLIST
          else (case JSON_parse P raw of
                  Inl e \<Rightarrow> deref h DEFAULT_BLOCKLIST
                | Inr (JArray parsed) \<Rightarrow> map trim_string (filter is_nonblank_string parsed)
                | Inr _ \<Rightarrow> deref h DEFAULT_BLOCKLIST))"
  by (simp add: loadBlockedList_def Array_from_def alloc_def deref_def
      split: sum.splits option.splits json.splits)

lemma loadBlockedList_after_save:
  assumes "saveBlockedList P st list = (True, st')"
    and "JSON_parse P (JSON_stringify P (JArray (map JString (normalised list)))) =
           Inr (JArray (map JString (normalised list)))"
    and "JSON_stringify P (JArray (map JString (normalised list))) \<noteq> []"
  shows "deref (snd (loadBlockedList P st' h)) (fst (loadBlockedList P st' h)) = normalised list"
proof -
  let ?payload = "JSON_stringify P (JArray (map JString (normalised list)))"
  from assms(1) have "getItem st' STORAGE_KEY = Inr (Some ?payload)"
    by (auto simp: saveBlockedList_eq setItem_def getItem_def split: if_splits)
  with assms(2,3) show ?thesis
    by (simp add: loadBlockedList_elements load_normalised)
qed

text \<open>
  C6: after a successful \<open>saveBlockedList\<close>, \<open>loadBlockedList\<close> returns exactly the stored
  form of the saved entries; after saving the empty list it returns the empty list, which
  is not the default list. The platform is assumed to read back the JSON text that it
  wrote for this list, and to write a text that is not empty.
\<close>

theorem save_then_load:
  assumes "saveBlockedList P st list = (True, st')"
    and "JSON_parse P (JSON_stringify P (JArray (map JString (normalised list)))) =
           Inr (JArray (map JString (normalised list)))"
    and "JSON_stringify P (JArray (map JString (normalised list))) \<noteq> []"
  shows "deref (snd (loadBlockedList P st' h)) (fst (loadBlockedList P st' h)) = normalised list \<and>
         (list = [] \<longrightarrow> deref (snd (loadBlockedList P st' h)) (fst (loadBlockedList P st' h)) = [] \<and>
            [] \<noteq> DEFAULT_BLOCKLIST_elements)"
proof -
  have "deref (snd (loadBlockedList P st' h)) (fst (loadBlockedList P st' h)) = normalised list"
    using assms by (rule loadBlockedList_after_save)
  moreover have "normalised [] = []"
    by (simp add: normalised_def)
  ultimately show ?thesis
    by (auto simp: DEFAULT_BLOCKLIST_elements_def)
qed

theorem save_then_load_witness:
  "saveBlockedList sample_platform (sample_storage 100 None) [] =
      (True, sample_storage 100 (Some ''[]'')) \<and>
   JSON_parse sample_platform (JSON_stringify sample_platform (JArray (map JString (normalised [])))) =
      Inr (JArray (map JString (normalised []))) \<and>
   JSON_stringify sample_platform (JArray (map JString (normalised []))) \<noteq> [] \<and>
   deref (snd (loadBlockedList sample_platform (sample_storage 100 (Some ''[]'')) initial_heap))
         (fst (loadBlockedList sample_platform (sample_storage 100 (Some ''[]'')) initial_heap)) = []"
proof -
  have n: "normalised ([] :: string list) = []"
    by (simp add: normalised_def)
  have a: "saveBlockedList sample_platform (sample_storage 100 None) [] =
      (True, sample_storage 100 (Some ''[]''))"
    by (simp add: saveBlockedList_def Set_new_def setItem_def sample_platform_def sample_storage_def
        STORAGE_KEY_def fun_eq_iff)
  have b: "JSON_parse sample_platform (JSON_stringify sample_platform (JArray (map JString (normalised [])))) =
      Inr (JArray (map JString (normalised [])))"
    by (simp add: n sample_platform_def)
  have c: "JSON_stringify sample_platform (JArray (map JString (normalised []))) \<noteq> []"
    by (simp add: n sample_platform_def)
  show ?thesis
    using a b c save_then_load [OF a b c, of initial_heap] by (simp add: n)
qed


lemma loadBlockedList_fresh:
  "fst (loadBlockedList P st h) = length h \<and>
   snd (loadBlockedList P st h) =
     h @ [deref (snd (loadBlockedList P st h)) (fst (loadBlockedList P st h))]"
  by (simp add: loadBlockedList_def Array_from_def alloc_def deref_def
      split: sum.splits option.splits json.splits)

lemma heap_ok_append: "heap_ok h \<Longrightarrow> heap_ok (h @ [xs])"
  by (auto simp: heap_ok_def deref_def nth_append)

lemma heap_ok_loadBlockedList: "heap_ok h \<Longrightarrow> heap_ok (snd (loadBlockedList P st h))"
  using loadBlockedList_fresh [of P st h] heap_ok_append by metis

lemma trim_strings_comprehension:
  "map trim_string (filter is_nonblank_string vs) = [trim v. JString v \<leftarrow> vs, trim v \<noteq> []]"
proof (induction vs)
  case Nil
  then show ?case by simp
next
  case (Cons a vs)
  then show ?case by (cases a) auto
qed

text \<open>
  C2, as amended: \<open>loadBlockedList\<close> never throws (it catches what \<open>getItem\<close> and
  \<open>JSON.parse\<close> throw) and always returns a newly allocated array, never the array
  \<open>DEFAULT_BLOCKLIST\<close> itself, which it leaves unchanged. The new array holds the
  default entries when storage cannot be read, when the key is missing or holds the empty
  string, when the text does not parse, and when the parsed value is not an array. For a
  parsed array it holds the trimmed string elements that are not blank; elements that are
  not strings are dropped, they do not make the function fall back to the defaults.
\<close>

theorem loadBlockedList_defaults_or_strings:
  assumes "heap_ok h"
  shows "fst (loadBlockedList P st h) = length h \<and>
         fst (loadBlockedList P st h) \<noteq> DEFAULT_BLOCKLIST \<and>
         snd (loadBlockedList P st h) =
           h @ [deref (snd (loadBlockedList P st h)) (fst (loadBlockedList P st h))] \<and>
         heap_ok (snd (loadBlockedList P st h)) \<and>
         deref (snd (loadBlockedList P st h)) (fst (loadBlockedList P st h)) =
           (case getItem st STORAGE_KEY of
              Inl e \<Rightarrow> DEFAULT_BLOCKLIST_elements
            | Inr None \<Rightarrow> DEFAULT_BLOCKLIST_elements
            | Inr (Some raw) \<Rightarrow>
                if raw = [] then DEFAULT_BLOCKLIST_elements
                else (case JSON_parse P raw of
                        Inl e \<Rightarrow> DEFAULT_BLOCKLIST_elements
                      | Inr (JArray parsed) \<Rightarrow> [trim v. JString v \<leftarrow> parsed, trim v \<noteq> []]
                      | Inr _ \<Rightarrow> DEFAULT_BLOCKLIST_elements))"
proof -
  from assms have d: "deref h DEFAULT_BLOCKLIST = DEFAULT_BLOCKLIST_elements"
    and l: "DEFAULT_BLOCKLIST < length h"
    by (simp_all add: heap_ok_def)
  have elements: "deref (snd (loadBlockedList P st h)) (fst (loadBlockedList P st h)) =
           (case getItem st STORAGE_KEY of
              Inl e \<Rightarrow> DEFAULT_BLOCKLIST_elements
            | Inr None \<Rightarrow> DEFAULT_BLOCKLIST_elements
            | Inr (Some raw) \<Rightarrow>
                if raw = [] then DEFAULT_BLOCKLIST_elements
                else (case JSON_parse P raw of
                        Inl e \<Rightarrow> DEFAULT_BLOCKLIST_elements
                      | Inr (JArray parsed) \<Rightarrow> [trim v. JString v \<leftarrow> parsed, trim v \<noteq> []]
                      | Inr _ \<Rightarrow> DEFAULT_BLOCKLIST_elements))"
    unfolding loadBlockedList_elements d trim_strings_comprehension ..
  have new: "fst (loadBlockedList P st h) = length h"
    and rest: "snd (loadBlockedList P st h) =
           h @ [deref (snd (loadBlockedList P st h)) (fst (loadBlockedList P st h))]"
    using loadBlockedList_fresh [of P st h] by blast+
  have other: "fst (loadBlockedList P st h) \<noteq> DEFAULT_BLOCKLIST"
    using l new by simp
  have ok: "heap_ok (snd (loadBlockedList P st h))"
    using assms by (rule heap_ok_loadBlockedList)
  show ?thesis
    by (intro conjI) (rule new, rule other, rule rest, rule ok, rule elements)
qed

theorem loadBlockedList_defaults_or_strings_witness:
  "heap_ok initial_heap \<and>
   fst (loadBlockedList sample_platform (sample_storage 100 None) initial_heap) = 1 \<and>
   deref (snd (loadBlockedList sample_platform (sample_storage 100 None) initial_heap))
         (fst (loadBlockedList sample_platform (sample_storage 100 None) initial_heap)) =
     DEFAULT_BLOCKLIST_elements"
proof -
  have ok: "heap_ok initial_heap"
    by (simp add: heap_ok_def initial_heap_def DEFAULT_BLOCKLIST_def deref_def)
  have "getItem (sample_storage 100 None) STORAGE_KEY = Inr None"
    by (simp add: getItem_def sample_storage_def)
  with ok loadBlockedList_defaults_or_strings [OF ok, of sample_platform "sample_storage 100 None"]
  show ?thesis
    by (auto simp: initial_heap_def)
qed

text \<open>
  The persisted text \<open>["a",1]\<close> is a list that is not entirely made of strings, and
  \<open>loadBlockedList\<close> returns \<open>["a"]\<close> for it, not the defaults.
\<close>

theorem loadBlockedList_mixed_list_counterexample:
  \<open>getItem (sample_storage 100 (Some ''["a",1]'')) STORAGE_KEY = Inr (Some ''["a",1]'') \<and>
   JSON_parse sample_platform ''["a",1]'' = Inr (JArray [JString ''a'', JNumber 1]) \<and>
   deref (snd (loadBlockedList sample_platform (sample_storage 100 (Some ''["a",1]'')) initial_heap))
         (fst (loadBlockedList sample_platform (sample_storage 100 (Some ''["a",1]'')) initial_heap))
     = [''a''] \<and>
   [''a''] \<noteq> DEFAULT_BLOCKLIST_elements\<close>
proof -
  have g: \<open>getItem (sample_storage 100 (Some ''["a",1]'')) STORAGE_KEY = Inr (Some ''["a",1]'')\<close>
    by (simp add: getItem_def sample_storage_def)
  have p: \<open>JSON_parse sample_platform ''["a",1]'' = Inr (JArray [JString ''a'', JNumber 1])\<close>
    by (simp add: sample_platform_def)
  have t: "trim ''a'' = ''a''"
    by (simp add: string_evaluation)
  show ?thesis
    by (simp add: loadBlockedList_elements g p t DEFAULT_BLOCKLIST_elements_def)
qed

section \<open>The reconciliation pass\<close>

lemma match_seller_nonempty: "match_seller s = Some m1 \<Longrightarrow> m1 \<noteq> []"
  by (induction s) (auto simp: Let_def split: option.splits if_splits)

lemma strategies_processed:
  "strategy1 P (r\<lparr>data_userscript_processed := x\<rparr>) = strategy1 P r"
  "strategy2 (r\<lparr>data_userscript_processed := x\<rparr>) = strategy2 r"
  "strategy3 (r\<lparr>data_userscript_processed := x\<rparr>) = strategy3 r"
  "strategy4 P (r\<lparr>data_userscript_processed := x\<rparr>) = strategy4 P r"
  by (simp_all add: strategy1_def strategy2_def strategy3_def strategy4_def)

lemma extractSellerFromRow_processed [simp]:
  "extractSellerFromRow P (r\<lparr>data_userscript_processed := x\<rparr>) = extractSellerFromRow P r"
  by (simp only: extractSellerFromRow_def strategies_processed)

lemma process_row_eq:
  "process_row P bs r =
     (if processed r then (r, None)
      else (case extractSellerFromRow P r of
              Inl e \<Rightarrow> (r\<lparr>data_userscript_processed := Some ''true''\<rparr>, Some e)
            | Inr None \<Rightarrow> (r\<lparr>data_userscript_processed := Some ''true''\<rparr>, None)
            | Inr (Some sellerRaw) \<Rightarrow>
                if sellerRaw \<noteq> [] \<and> canon (Some sellerRaw) \<in> set bs
                then (hideRow (r\<lparr>data_userscript_processed := Some ''true''\<rparr>), None)
                else (r\<lparr>data_userscript_processed := Some ''true''\<rparr>, None)))"
  by (simp add: process_row_def processed_def Set_has_def Let_def split: sum.splits option.splits)

lemma process_row_skips: "processed r \<Longrightarrow> process_row P bs r = (r, None)"
  by (simp add: process_row_eq)

lemma process_row_marks: "processed (fst (process_row P bs r))"
  by (simp add: process_row_eq processed_def hideRow_def split: sum.splits option.splits)



lemma process_row_flags_kept: "flags_kept r (fst (process_row P bs r))"
  by (simp add: process_row_eq flags_kept_def blocked_def hidden_def processed_def hideRow_def
      split: sum.splits option.splits)





lemma forEach_not_visited:
  "visited f rs \<le> i \<Longrightarrow> i < length rs \<Longrightarrow> fst (forEach f rs) ! i = rs ! i"
proof (induction rs arbitrary: i)
  case Nil
  then show ?case by simp
next
  case (Cons r rs)
  then show ?case
    by (cases i) (auto split: prod.splits option.splits)
qed

lemma forEach_pointwise:
  assumes "\<And>r. R r r" and "\<And>r. R r (fst (f r))"
  shows "list_all2 R rs (fst (forEach f rs))"
proof (induction rs)
  case Nil
  then show ?case by simp
next
  case (Cons r rs)
  have "list_all2 R rs rs"
    using assms(1) by (simp add: list_all2_refl)
  with Cons assms(2) [of r] show ?case
    by (auto split: prod.splits option.splits)
qed

lemma processListings_rows:
  assumes "processListings P s = (s', e)"
  shows "forEach (on_listing (process_row P (blockedSet s'))) (rows s) = (rows s', e)"
    and "blockedSet s' = fst (buildBlockedSetFromSaved P (localStorage s) (heap s))"
  using assms by (auto simp: processListings_def split: prod.splits)

lemma set_Set_new: "set (Set_new xs) = set xs"
  by (simp add: Set_new_dedup set_dedup_first_seen)

lemma set_buildBlockedSetFromSaved:
  "set (fst (buildBlockedSetFromSaved P st h)) =
     (\<lambda>x. canon (Some x)) ` set (deref (snd (loadBlockedList P st h)) (fst (loadBlockedList P st h)))"
  by (simp add: buildBlockedSetFromSaved_def set_Set_new split: prod.splits)




lemma forEach_flags_kept:
  "list_all2 flags_kept rs (fst (forEach (on_listing (process_row P bs)) rs))"
proof (rule forEach_pointwise)
  show "flags_kept r r" for r
    by (simp add: flags_kept_def)
  show "flags_kept r (fst (on_listing (process_row P bs) r))" for r
    using process_row_flags_kept [of r P bs] by (simp add: on_listing_def flags_kept_def)
qed

text \<open>
  C10, as amended: a pass is monotone on the flags of every row, for every page, every
  stored list and every canonical set: a row that is blocked, hidden or processed before
  the pass is so after it, no marker attribute is removed, and a row that is not displayed
  is not displayed afterwards. This holds for the traversal with an arbitrary canonical
  set, and so for a pass that runs after a seller has left the blocklist. Outside the
  save handler the only other operation on rows is the toggle: it leaves the blocked and
  processed attributes of every row alone, so that these are removed by the reset of the
  save handler only, but on a blocked row it sets hidden to \<open>!show\<close>, so that
  \<open>toggleHiddenRows(true)\<close> clears hidden and displays the row; rows that are not blocked
  it leaves as they are.
\<close>

theorem processListings_monotone:
  "(forEach (on_listing (process_row P bs)) rs = (rs', e) \<longrightarrow>
      length rs' = length rs \<and> (\<forall>i<length rs. flags_kept (rs ! i) (rs' ! i))) \<and>
   (processListings P s = (s', e') \<longrightarrow>
      length (rows s') = length (rows s) \<and>
      (\<forall>i<length (rows s). flags_kept (rows s ! i) (rows s' ! i))) \<and>
   data_blocked_by_userscript (toggle_row show r) = data_blocked_by_userscript r \<and>
   data_userscript_processed (toggle_row show r) = data_userscript_processed r \<and>
   (blocked r \<longrightarrow>
      hidden (toggle_row show r) = (\<not> show) \<and>
      data_hidden_by_userscript (toggle_row show r) = (if show then None else Some ''true'') \<and>
      style_display (toggle_row show r) = (if show then [] else ''none'')) \<and>
   (\<not> blocked r \<longrightarrow> toggle_row show r = r)"
proof (intro conjI impI)
  assume "forEach (on_listing (process_row P bs)) rs = (rs', e)"
  with forEach_flags_kept [of rs P bs] have "list_all2 flags_kept rs rs'"
    by simp
  then show "length rs' = length rs" and "\<forall>i<length rs. flags_kept (rs ! i) (rs' ! i)"
    by (simp_all add: list_all2_conv_all_nth)
next
  assume "processListings P s = (s', e')"
  then have "forEach (on_listing (process_row P (blockedSet s'))) (rows s) = (rows s', e')"
    by (rule processListings_rows)
  with forEach_flags_kept [of "rows s" P "blockedSet s'"] have "list_all2 flags_kept (rows s) (rows s')"
    by simp
  then show "length (rows s') = length (rows s)"
    and "\<forall>i<length (rows s). flags_kept (rows s ! i) (rows s' ! i)"
    by (simp_all add: list_all2_conv_all_nth)
next
  show "data_blocked_by_userscript (toggle_row show r) = data_blocked_by_userscript r"
    and "data_userscript_processed (toggle_row show r) = data_userscript_processed r"
    by (simp_all add: toggle_row_def unhideRow_def)
next
  assume "blocked r"
  then show "hidden (toggle_row show r) = (\<not> show)"
    and "data_hidden_by_userscript (toggle_row show r) = (if show then None else Some ''true'')"
    and "style_display (toggle_row show r) = (if show then [] else ''none'')"
    by (simp_all add: toggle_row_def unhideRow_def blocked_def hidden_def)
next
  assume "\<not> blocked r"
  then show "toggle_row show r = r"
    by (simp add: toggle_row_def blocked_def)
qed

text \<open>
  The toggle clears a flag outside the save handler: on a page whose stored list is
  untouched, \<open>toggleHiddenRows(true)\<close> removes the hidden marker of a blocked row of magius
  and displays the row, and leaves it blocked and processed.
\<close>

theorem toggleHiddenRows_clears_hidden_counterexample:
  "hidden hidden_magius_row \<and> style_display hidden_magius_row = ''none'' \<and>
   toggleHiddenRows True (sample_page initial_heap None default_keys [hidden_magius_row]) =
     (sample_page initial_heap None default_keys [unhideRow hidden_magius_row])
       \<lparr>currentlyShowingHidden := True\<rparr> \<and>
   \<not> hidden (unhideRow hidden_magius_row) \<and>
   data_hidden_by_userscript (unhideRow hidden_magius_row) = None \<and>
   style_display (unhideRow hidden_magius_row) = [] \<and>
   blocked (unhideRow hidden_magius_row) \<and> processed (unhideRow hidden_magius_row)"
  by (simp add: toggleHiddenRows_def sample_page_def row_evaluation)

text \<open>
  Two rows of seller magius, hidden by an earlier pass (the second one without the processed
  marker), and a pass after the list has been saved empty; and the toggle revealing the
  first of them.
\<close>

theorem processListings_monotone_witness:
  "forEach (on_listing (process_row sample_platform [])) [hidden_magius_row, hideRow magius_row] =
     ([hidden_magius_row, hideRow (magius_row\<lparr>data_userscript_processed := Some ''true''\<rparr>)], None) \<and>
   processListings sample_platform
       (sample_page initial_heap (Some ''[]'') default_keys [hidden_magius_row, hideRow magius_row]) =
     (sample_page [DEFAULT_BLOCKLIST_elements, []] (Some ''[]'') []
        [hidden_magius_row, hideRow (magius_row\<lparr>data_userscript_processed := Some ''true''\<rparr>)],
      None) \<and>
   blocked (hideRow magius_row) \<and> hidden (hideRow magius_row) \<and>
   style_display (hideRow magius_row) = ''none'' \<and>
   blocked (hideRow (magius_row\<lparr>data_userscript_processed := Some ''true''\<rparr>)) \<and>
   hidden (hideRow (magius_row\<lparr>data_userscript_processed := Some ''true''\<rparr>)) \<and>
   style_display (hideRow (magius_row\<lparr>data_userscript_processed := Some ''true''\<rparr>)) = ''none'' \<and>
   blocked hidden_magius_row \<and>
   \<not> hidden (toggle_row True hidden_magius_row) \<and>
   style_display (toggle_row True hidden_magius_row) = [] \<and>
   data_blocked_by_userscript (toggle_row True hidden_magius_row) =
     data_blocked_by_userscript hidden_magius_row"
proof -
  let ?rs = "[hidden_magius_row, hideRow magius_row]"
  let ?rs' = "[hidden_magius_row, hideRow (magius_row\<lparr>data_userscript_processed := Some ''true''\<rparr>)]"
  let ?s = "sample_page initial_heap (Some ''[]'') default_keys ?rs"
  let ?s' = "sample_page [DEFAULT_BLOCKLIST_elements, []] (Some ''[]'') [] ?rs'"
  have trav: "forEach (on_listing (process_row sample_platform [])) ?rs = (?rs', None)"
    by (simp add: string_evaluation row_evaluation sample_platform_def Set_has_def)
  have run: "processListings sample_platform ?s = (?s', None)"
    by (simp add: processListings_def sample_page_def string_evaluation blocklist_evaluation
        row_evaluation)
  have before: "blocked (hideRow magius_row)" "hidden (hideRow magius_row)"
    "style_display (hideRow magius_row) = ''none''"
    by (simp_all add: row_evaluation)
  have second: "rows ?s ! 1 = hideRow magius_row"
    "rows ?s' ! 1 = hideRow (magius_row\<lparr>data_userscript_processed := Some ''true''\<rparr>)"
    and len: "1 < length (rows ?s)"
    by (simp_all add: sample_page_def)
  note inst = processListings_monotone [of sample_platform "[]" ?rs ?rs' None ?s ?s' None True
      hidden_magius_row]
  from inst trav have "\<forall>i<length ?rs. flags_kept (?rs ! i) (?rs' ! i)"
    by blast
  from inst run have "\<forall>i<length (rows ?s). flags_kept (rows ?s ! i) (rows ?s' ! i)"
    by blast
  with len have "flags_kept (rows ?s ! 1) (rows ?s' ! 1)"
    by blast
  with second have "flags_kept (hideRow magius_row)
      (hideRow (magius_row\<lparr>data_userscript_processed := Some ''true''\<rparr>))"
    by simp
  with before have "blocked (hideRow (magius_row\<lparr>data_userscript_processed := Some ''true''\<rparr>)) \<and>
      hidden (hideRow (magius_row\<lparr>data_userscript_processed := Some ''true''\<rparr>)) \<and>
      style_display (hideRow (magius_row\<lparr>data_userscript_processed := Some ''true''\<rparr>)) = ''none''"
    by (simp add: flags_kept_def)
  moreover have shown: "blocked hidden_magius_row"
    by (simp add: row_evaluation)
  moreover from inst shown have "\<not> hidden (toggle_row True hidden_magius_row) \<and>
      style_display (toggle_row True hidden_magius_row) = [] \<and>
      data_blocked_by_userscript (toggle_row True hidden_magius_row) =
        data_blocked_by_userscript hidden_magius_row"
    by simp
  ultimately show ?thesis
    using trav run before by blast
qed

lemma toggle_row_idem: "toggle_row show (toggle_row show r) = toggle_row show r"
  by (simp add: toggle_row_def unhideRow_def)

text \<open>
  C8: \<open>toggleHiddenRows(show)\<close> sets hidden to \<open>!show\<close> (and the display accordingly) on
  every blocked row, leaves every other row as it is, and changes the blocked and
  processed attributes of no row. It is idempotent in \<open>show\<close>, and revealing followed by
  hiding leaves every blocked row hidden and blocked.
\<close>

theorem toggleHiddenRows_frame:
  "length (rows (toggleHiddenRows show s)) = length (rows s) \<and>
   (\<forall>i<length (rows s).
      (blocked (rows s ! i) \<longrightarrow>
         hidden (rows (toggleHiddenRows show s) ! i) = (\<not> show) \<and>
         data_hidden_by_userscript (rows (toggleHiddenRows show s) ! i) =
           (if show then None else Some ''true'') \<and>
         style_display (rows (toggleHiddenRows show s) ! i) = (if show then [] else ''none'')) \<and>
      (\<not> blocked (rows s ! i) \<longrightarrow> rows (toggleHiddenRows show s) ! i = rows s ! i) \<and>
      data_blocked_by_userscript (rows (toggleHiddenRows show s) ! i) =
        data_blocked_by_userscript (rows s ! i) \<and>
      data_userscript_processed (rows (toggleHiddenRows show s) ! i) =
        data_userscript_processed (rows s ! i)) \<and>
   toggleHiddenRows show (toggleHiddenRows show s) = toggleHiddenRows show s \<and>
   (\<forall>i<length (rows s). blocked (rows s ! i) \<longrightarrow>
      hidden (rows (toggleHiddenRows False (toggleHiddenRows True s)) ! i) \<and>
      blocked (rows (toggleHiddenRows False (toggleHiddenRows True s)) ! i))"
proof -
  have "toggleHiddenRows show (toggleHiddenRows show s) = toggleHiddenRows show s"
    by (simp add: toggleHiddenRows_def toggle_row_idem)
  moreover have "\<forall>i<length (rows s). blocked (rows s ! i) \<longrightarrow>
      hidden (rows (toggleHiddenRows False (toggleHiddenRows True s)) ! i) \<and>
      blocked (rows (toggleHiddenRows False (toggleHiddenRows True s)) ! i)"
    by (simp add: toggleHiddenRows_def toggle_row_def unhideRow_def blocked_def hidden_def)
  moreover have "\<forall>i<length (rows s).
      (blocked (rows s ! i) \<longrightarrow>
         hidden (rows (toggleHiddenRows show s) ! i) = (\<not> show) \<and>
         data_hidden_by_userscript (rows (toggleHiddenRows show s) ! i) =
           (if show then None else Some ''true'') \<and>
         style_display (rows (toggleHiddenRows show s) ! i) = (if show then [] else ''none'')) \<and>
      (\<not> blocked (rows s ! i) \<longrightarrow> rows (toggleHiddenRows show s) ! i = rows s ! i) \<and>
      data_blocked_by_userscript (rows (toggleHiddenRows show s) ! i) =
        data_blocked_by_userscript (rows s ! i) \<and>
      data_userscript_processed (rows (toggleHiddenRows show s) ! i) =
        data_userscript_processed (rows s ! i)"
    by (simp add: toggleHiddenRows_def toggle_row_def unhideRow_def blocked_def hidden_def)
  moreover have "length (rows (toggleHiddenRows show s)) = length (rows s)"
    by (simp add: toggleHiddenRows_def)
  ultimately show ?thesis
    by blast
qed

text \<open>Revealing and hiding again, on a hidden row of magius and an untouched row.\<close>

theorem toggleHiddenRows_frame_witness:
  "blocked hidden_magius_row \<and> \<not> blocked justicker_row \<and>
   rows (sample_page initial_heap None default_keys [hidden_magius_row, justicker_row]) ! 0 =
     hidden_magius_row \<and>
   rows (sample_page initial_heap None default_keys [hidden_magius_row, justicker_row]) ! 1 =
     justicker_row \<and>
   \<not> hidden (rows (toggleHiddenRows True
      (sample_page initial_heap None default_keys [hidden_magius_row, justicker_row])) ! 0) \<and>
   style_display (rows (toggleHiddenRows True
      (sample_page initial_heap None default_keys [hidden_magius_row, justicker_row])) ! 0) = [] \<and>
   rows (toggleHiddenRows True
      (sample_page initial_heap None default_keys [hidden_magius_row, justicker_row])) ! 1 = justicker_row \<and>
   hidden (rows (toggleHiddenRows False (toggleHiddenRows True
      (sample_page initial_heap None default_keys [hidden_magius_row, justicker_row]))) ! 0) \<and>
   blocked (rows (toggleHiddenRows False (toggleHiddenRows True
      (sample_page initial_heap None default_keys [hidden_magius_row, justicker_row]))) ! 0)"
proof -
  let ?s = "sample_page initial_heap None default_keys [hidden_magius_row, justicker_row]"
  have rs: "rows ?s ! 0 = hidden_magius_row" "rows ?s ! 1 = justicker_row" "length (rows ?s) = 2"
    by (simp_all add: sample_page_def)
  have b: "blocked hidden_magius_row" "\<not> blocked justicker_row"
    by (simp_all add: row_evaluation)
  from toggleHiddenRows_frame [of True ?s] rs b
  have "\<not> hidden (rows (toggleHiddenRows True ?s) ! 0) \<and>
      style_display (rows (toggleHiddenRows True ?s) ! 0) = [] \<and>
      rows (toggleHiddenRows True ?s) ! 1 = justicker_row"
    by (auto dest!: spec [of _ 0] spec [of _ 1])
  moreover from toggleHiddenRows_frame [of True ?s] rs b
  have "hidden (rows (toggleHiddenRows False (toggleHiddenRows True ?s)) ! 0) \<and>
      blocked (rows (toggleHiddenRows False (toggleHiddenRows True ?s)) ! 0)"
    by (auto dest!: spec [of _ 0])
  ultimately show ?thesis
    using rs b by simp
qed

section \<open>Repeated passes\<close>

text \<open>
  A pass that has run to its end leaves every listing row processed, so the next pass
  changes no row and ends normally, whatever the stored list and the platform then are.
\<close>

lemma forEach_completed:
  "snd (forEach f rs) = None \<Longrightarrow> fst (forEach f rs) = map (\<lambda>r. fst (f r)) rs"
  by (induction rs) (auto split: prod.splits option.splits)

lemma forEach_skips:
  "\<forall>r\<in>set rs. f r = (r, None) \<Longrightarrow> forEach f rs = (rs, None)"
  by (induction rs) auto

lemma on_listing_settled:
  "on_listing (process_row P' bs') (fst (on_listing (process_row P bs) r)) =
     (fst (on_listing (process_row P bs) r), None)"
proof (cases "listing r")
  case True
  have "listing (fst (process_row P bs r))"
    using True by (simp add: process_row_eq hideRow_def split: sum.splits option.splits)
  with True show ?thesis
    by (simp add: on_listing_def process_row_skips process_row_marks)
next
  case False
  then show ?thesis
    by (simp add: on_listing_def)
qed

lemma processListings_after_completed_pass:
  assumes "processListings P s = (s', None)"
  shows "rows (fst (processListings P' s')) = rows s' \<and> snd (processListings P' s') = None"
proof -
  from assms have "forEach (on_listing (process_row P (blockedSet s'))) (rows s) = (rows s', None)"
    by (rule processListings_rows)
  then have "rows s' = map (\<lambda>r. fst (on_listing (process_row P (blockedSet s')) r)) (rows s)"
    using forEach_completed [of "on_listing (process_row P (blockedSet s'))" "rows s"] by simp
  then have "\<forall>r\<in>set (rows s'). on_listing (process_row P' bs) r = (r, None)" for bs
    by (auto simp: on_listing_settled)
  then have "forEach (on_listing (process_row P' bs)) (rows s') = (rows s', None)" for bs
    by (rule forEach_skips)
  then show ?thesis
    by (simp add: processListings_def split: prod.splits)
qed

text \<open>
  C7: a second pass over the same rows, with the same stored list, changes no row when the
  first pass ran to its end (\<open>processListings_after_completed_pass\<close>). When
  \<open>decodeURIComponent\<close> ended the first pass with a \<open>URIError\<close>, the offending row is
  marked processed and the rows behind it have not been visited: the second pass skips
  the marked row and hides a row of a blocked seller that the first pass left alone. The
  theorem runs both passes on such a page, with the default list.
\<close>

theorem processListings_second_pass_after_abort:
  "processListings sample_platform (sample_page initial_heap None [] [malformed_row, justicker_row]) =
     (sample_page [DEFAULT_BLOCKLIST_elements, DEFAULT_BLOCKLIST_elements] None default_keys
        [malformed_row\<lparr>data_userscript_processed := Some ''true''\<rparr>, justicker_row],
      Some URIError) \<and>
   processListings sample_platform
     (sample_page [DEFAULT_BLOCKLIST_elements, DEFAULT_BLOCKLIST_elements] None default_keys
        [malformed_row\<lparr>data_userscript_processed := Some ''true''\<rparr>, justicker_row]) =
     (sample_page [DEFAULT_BLOCKLIST_elements, DEFAULT_BLOCKLIST_elements, DEFAULT_BLOCKLIST_elements]
        None default_keys
        [malformed_row\<lparr>data_userscript_processed := Some ''true''\<rparr>,
         hideRow (justicker_row\<lparr>data_userscript_processed := Some ''true''\<rparr>)],
      None) \<and>
   hideRow (justicker_row\<lparr>data_userscript_processed := Some ''true''\<rparr>) \<noteq> justicker_row"
proof -
  have first: "processListings sample_platform
      (sample_page initial_heap None [] [malformed_row, justicker_row]) =
     (sample_page [DEFAULT_BLOCKLIST_elements, DEFAULT_BLOCKLIST_elements] None default_keys
        [malformed_row\<lparr>data_userscript_processed := Some ''true''\<rparr>, justicker_row],
      Some URIError)"
    by (simp add: processListings_def sample_page_def string_evaluation blocklist_evaluation
        row_evaluation)
  have second: "processListings sample_platform
     (sample_page [DEFAULT_BLOCKLIST_elements, DEFAULT_BLOCKLIST_elements] None default_keys
        [malformed_row\<lparr>data_userscript_processed := Some ''true''\<rparr>, justicker_row]) =
     (sample_page [DEFAULT_BLOCKLIST_elements, DEFAULT_BLOCKLIST_elements, DEFAULT_BLOCKLIST_elements]
        None default_keys
        [malformed_row\<lparr>data_userscript_processed := Some ''true''\<rparr>,
         hideRow (justicker_row\<lparr>data_userscript_processed := Some ''true''\<rparr>)],
      None)"
    by (simp add: processListings_def sample_page_def string_evaluation blocklist_evaluation
        row_evaluation)
  have changed: "hideRow (justicker_row\<lparr>data_userscript_processed := Some ''true''\<rparr>) \<noteq> justicker_row"
    by (simp add: row_evaluation)
  from first second changed show ?thesis
    by blast
qed

section \<open>The markers on reachable pages\<close>

text \<open>
  Rows come from the page without the attribute \<open>data-hidden-by-userscript\<close>, and every
  operation of the script keeps \<open>markers_consistent\<close>.
\<close>

lemma markers_consistent_fresh:
  "data_hidden_by_userscript r = None \<Longrightarrow> markers_consistent r"
  by (simp add: markers_consistent_def)

lemma markers_consistent_process_row:
  "markers_consistent r \<Longrightarrow> markers_consistent (fst (on_listing (process_row P bs) r))"
  by (auto simp: markers_consistent_def on_listing_def process_row_eq blocked_def hideRow_def
      split: sum.splits option.splits)

lemma markers_consistent_toggle_row:
  "markers_consistent r \<Longrightarrow> markers_consistent (toggle_row show r)"
  by (auto simp: markers_consistent_def toggle_row_def unhideRow_def blocked_def)

lemma markers_consistent_reset:
  "markers_consistent r \<Longrightarrow> markers_consistent (clear_processed (clear_blocked r))"
  by (auto simp: markers_consistent_def clear_processed_def clear_blocked_def blocked_def)

lemma markers_consistent_forEach:
  assumes "\<forall>r\<in>set rs. markers_consistent r"
  shows "\<forall>r\<in>set (fst (forEach (on_listing (process_row P bs)) rs)). markers_consistent r"
proof -
  have "list_all2 (\<lambda>r r'. markers_consistent r \<longrightarrow> markers_consistent r') rs
      (fst (forEach (on_listing (process_row P bs)) rs))"
    by (rule forEach_pointwise) (simp_all add: markers_consistent_process_row)
  moreover have "list_all2 (\<lambda>r r'. markers_consistent r \<longrightarrow> markers_consistent r') xs ys \<Longrightarrow>
      \<forall>r\<in>set xs. markers_consistent r \<Longrightarrow> \<forall>r\<in>set ys. markers_consistent r" for xs ys
    by (induction rule: list_all2_induct) auto
  ultimately show ?thesis
    using assms by blast
qed

lemma markers_consistent_processListings:
  assumes "\<forall>r\<in>set (rows s). markers_consistent r"
  shows "\<forall>r\<in>set (rows (fst (processListings P s))). markers_consistent r"
proof -
  obtain s' e where run: "processListings P s = (s', e)"
    by (cases "processListings P s")
  then have "rows s' = fst (forEach (on_listing (process_row P (blockedSet s'))) (rows s))"
    using processListings_rows(1) [OF run] by simp
  with assms run show ?thesis
    using markers_consistent_forEach [of "rows s" P "blockedSet s'"] by simp
qed

lemma markers_consistent_toggleHiddenRows:
  assumes "\<forall>r\<in>set (rows s). markers_consistent r"
  shows "\<forall>r\<in>set (rows (toggleHiddenRows show s)). markers_consistent r"
  using assms by (auto simp: toggleHiddenRows_def markers_consistent_toggle_row)

lemma markers_consistent_saveBtn_click:
  assumes "\<forall>r\<in>set (rows s). markers_consistent r"
  shows "\<forall>r\<in>set (rows (fst (saveBtn_click P raw confirm s))). markers_consistent r"
proof -
  let ?flattened = "parse_textarea raw"
  obtain saved st' where save: "saveBlockedList P (localStorage s) ?flattened = (saved, st')"
    by (cases "saveBlockedList P (localStorage s) ?flattened")
  let ?reset = "s\<lparr>localStorage := st', rows := map clear_processed (map clear_blocked (rows s)),
      currentlyShowingHidden := False\<rparr>"
  have "\<forall>r\<in>set (rows ?reset). markers_consistent r"
    using assms by (auto simp: markers_consistent_reset)
  then have pass: "\<forall>r\<in>set (rows (fst (processListings P ?reset))). markers_consistent r"
    by (rule markers_consistent_processListings)
  show ?thesis
  proof (cases "?flattened = [] \<and> \<not> confirm")
    case True
    with assms show ?thesis
      by (simp add: saveBtn_click_def)
  next
    case False
    with save assms pass show ?thesis
      by (cases saved) (auto simp: saveBtn_click_def Let_def split: prod.splits option.splits)
  qed
qed

section \<open>Saving from the options dialog\<close>

lemma parse_textarea_trimmed: "x \<in> set (parse_textarea raw) \<Longrightarrow> trim x = x \<and> x \<noteq> []"
  by (auto simp: parse_textarea_def Boolean_def trim_idem Let_def)

lemma set_normalised_parse_textarea:
  "set (normalised (parse_textarea raw)) = set (parse_textarea raw)"
proof -
  have "trim ` set (parse_textarea raw) = set (parse_textarea raw)"
    using parse_textarea_trimmed [of _ raw] by (auto simp: image_iff)
  moreover have "[] \<notin> set (parse_textarea raw)"
    using parse_textarea_trimmed [of "[]" raw] by auto
  ultimately show ?thesis
    by (simp add: set_normalised)
qed

lemma reset_row:
  "markers_consistent r \<Longrightarrow>
     \<not> blocked (clear_processed (clear_blocked r)) \<and>
     \<not> hidden (clear_processed (clear_blocked r)) \<and>
     \<not> processed (clear_processed (clear_blocked r)) \<and>
     data_hidden_by_userscript (clear_processed (clear_blocked r)) = None"
  by (auto simp: markers_consistent_def clear_processed_def clear_blocked_def blocked_def hidden_def
      processed_def)

lemma reset_row_display:
  "blocked r \<Longrightarrow> style_display (clear_processed (clear_blocked r)) = []"
  by (simp add: clear_processed_def clear_blocked_def blocked_def)

lemma saveBtn_click_eq:
  assumes "parse_textarea raw \<noteq> [] \<or> confirm"
    and "saveBlockedList P (localStorage s) (parse_textarea raw) = (saved, st')"
  shows "saveBtn_click P raw confirm s =
     (if saved
      then (case processListings P (after_reset s st') of
              (s', None) \<Rightarrow> (s'\<lparr>modal_display := ''none''\<rparr>, None)
            | (s', Some e) \<Rightarrow> (s', Some e))
      else (s\<lparr>localStorage := st'\<rparr>, None))"
  using assms by (auto simp: saveBtn_click_def after_reset_def Let_def)

text \<open>
  C9: the click on Save, when it is not cancelled at the question about an empty list.
  If \<open>saveBlockedList\<close> succeeds, the handler clears the blocked, hidden and processed
  flags of every row and displays the rows that were blocked, and then runs
  \<open>processListings\<close> on that page: the rows and the outcome of the click are those of
  this pass, and the canonical set of the pass holds the canonical keys of the entries
  typed into the textarea. If \<open>saveBlockedList\<close> fails, the page is left as it was,
  the variable \<open>blockedSet\<close> and every row included. The rows are assumed to be as the
  script leaves them (a hidden marker on blocked rows only), and the platform to read
  back the JSON text that it wrote.
\<close>

theorem saveBtn_click_resets_and_rescans:
  assumes "\<forall>r\<in>set (rows s). markers_consistent r"
    and "parse_textarea raw \<noteq> [] \<or> confirm"
    and "saveBlockedList P (localStorage s) (parse_textarea raw) = (saved, st')"
    and "JSON_parse P (JSON_stringify P (JArray (map JString (normalised (parse_textarea raw))))) =
           Inr (JArray (map JString (normalised (parse_textarea raw))))"
    and "JSON_stringify P (JArray (map JString (normalised (parse_textarea raw)))) \<noteq> []"
  shows "(saved \<longrightarrow>
            (\<forall>r\<in>set (rows (after_reset s st')).
                \<not> blocked r \<and> \<not> hidden r \<and> \<not> processed r \<and> data_hidden_by_userscript r = None) \<and>
            (\<forall>i<length (rows s). blocked (rows s ! i) \<longrightarrow>
                style_display (rows (after_reset s st') ! i) = []) \<and>
            rows (fst (saveBtn_click P raw confirm s)) =
              rows (fst (processListings P (after_reset s st'))) \<and>
            snd (saveBtn_click P raw confirm s) = snd (processListings P (after_reset s st')) \<and>
            set (blockedSet (fst (saveBtn_click P raw confirm s))) =
              (\<lambda>x. canon (Some x)) ` set (parse_textarea raw)) \<and>
         (\<not> saved \<longrightarrow> saveBtn_click P raw confirm s = (s, None))"
proof (intro conjI impI)
  assume "\<not> saved"
  with assms(3) have "st' = localStorage s"
    by (auto simp: saveBlockedList_eq split: sum.splits)
  with \<open>\<not> saved\<close> show "saveBtn_click P raw confirm s = (s, None)"
    using saveBtn_click_eq [OF assms(2,3)] by simp
next
  assume saved
  show "\<forall>r\<in>set (rows (after_reset s st')).
      \<not> blocked r \<and> \<not> hidden r \<and> \<not> processed r \<and> data_hidden_by_userscript r = None"
    using assms(1) reset_row by (auto simp: after_reset_def)
  show "\<forall>i<length (rows s). blocked (rows s ! i) \<longrightarrow>
      style_display (rows (after_reset s st') ! i) = []"
    by (simp add: after_reset_def reset_row_display)
  obtain s1 e1 where run: "processListings P (after_reset s st') = (s1, e1)"
    by (cases "processListings P (after_reset s st')")
  with \<open>saved\<close> have click: "saveBtn_click P raw confirm s =
      (case e1 of None \<Rightarrow> (s1\<lparr>modal_display := ''none''\<rparr>, None) | Some e \<Rightarrow> (s1, Some e))"
    using saveBtn_click_eq [OF assms(2,3)] by (simp split: option.splits)
  then show "rows (fst (saveBtn_click P raw confirm s)) =
      rows (fst (processListings P (after_reset s st')))"
    and "snd (saveBtn_click P raw confirm s) = snd (processListings P (after_reset s st'))"
    using run by (simp_all split: option.splits)
  from assms(3) \<open>saved\<close> have "saveBlockedList P (localStorage s) (parse_textarea raw) = (True, st')"
    by simp
  then have "deref (snd (loadBlockedList P st' (heap s))) (fst (loadBlockedList P st' (heap s))) =
      normalised (parse_textarea raw)"
    using assms(4,5) by (rule loadBlockedList_after_save)
  moreover have "blockedSet s1 = fst (buildBlockedSetFromSaved P st' (heap s))"
    using processListings_rows(2) [OF run] by (simp add: after_reset_def)
  ultimately have "set (blockedSet s1) = (\<lambda>x. canon (Some x)) ` set (parse_textarea raw)"
    by (simp add: set_buildBlockedSetFromSaved set_normalised_parse_textarea)
  with click show "set (blockedSet (fst (saveBtn_click P raw confirm s))) =
      (\<lambda>x. canon (Some x)) ` set (parse_textarea raw)"
    by (simp split: option.splits)
qed

text \<open>
  Saving the list \<open>justicker\<close> on a page with a hidden row of magius and an untouched row
  of Justicker: once with room in the store, once with a store that is full.
\<close>

theorem saveBtn_click_resets_and_rescans_witness:
  \<open>list_all markers_consistent [hidden_magius_row, justicker_row] \<and>
   parse_textarea ''justicker'' = [''justicker''] \<and>
   saveBlockedList sample_platform (sample_storage 100 None) [''justicker''] =
     (True, sample_storage 100 (Some ''["justicker"]'')) \<and>
   JSON_parse sample_platform (JSON_stringify sample_platform (JArray [JString ''justicker''])) =
     Inr (JArray [JString ''justicker'']) \<and>
   JSON_stringify sample_platform (JArray [JString ''justicker'']) = ''["justicker"]'' \<and>
   rows (fst (saveBtn_click sample_platform ''justicker'' False
                (sample_page initial_heap None default_keys [hidden_magius_row, justicker_row]))) =
     [magius_row\<lparr>data_userscript_processed := Some ''true''\<rparr>,
      hideRow (justicker_row\<lparr>data_userscript_processed := Some ''true''\<rparr>)] \<and>
   set (blockedSet (fst (saveBtn_click sample_platform ''justicker'' False
                (sample_page initial_heap None default_keys [hidden_magius_row, justicker_row])))) =
     {''justicker''} \<and>
   saveBlockedList sample_platform (sample_storage 10 None) [''justicker''] =
     (False, sample_storage 10 None) \<and>
   saveBtn_click sample_platform ''justicker'' False
      ((sample_page initial_heap None default_keys [hidden_magius_row, justicker_row])
         \<lparr>localStorage := sample_storage 10 None\<rparr>) =
     ((sample_page initial_heap None default_keys [hidden_magius_row, justicker_row])
         \<lparr>localStorage := sample_storage 10 None\<rparr>, None)\<close>
proof -
  let ?s = "sample_page initial_heap None default_keys [hidden_magius_row, justicker_row]"
  let ?full = "?s\<lparr>localStorage := sample_storage 10 None\<rparr>"
  let ?st' = \<open>sample_storage 100 (Some ''["justicker"]'')\<close>
  have inv: "\<forall>r\<in>set (rows ?s). markers_consistent r"
    by (simp add: sample_page_def row_evaluation)
  have inv': "\<forall>r\<in>set (rows ?full). markers_consistent r"
    by (simp add: sample_page_def row_evaluation)
  have typed: "parse_textarea ''justicker'' = [''justicker'']"
    by (simp add: string_evaluation split_on.simps)
  then have n: "normalised (parse_textarea ''justicker'') = [''justicker'']"
    by (simp add: normalised_def string_evaluation)
  have go: "parse_textarea ''justicker'' \<noteq> [] \<or> False"
    using typed by simp
  have saved: "saveBlockedList sample_platform (sample_storage 100 None) [''justicker''] = (True, ?st')"
    by (simp add: string_evaluation blocklist_evaluation fun_eq_iff)
  have failed: "saveBlockedList sample_platform (sample_storage 10 None) [''justicker''] =
      (False, sample_storage 10 None)"
    by (simp add: string_evaluation blocklist_evaluation)
  have s: "saveBlockedList sample_platform (localStorage ?s) (parse_textarea ''justicker'') = (True, ?st')"
    using saved typed by (simp add: sample_page_def)
  have f: "saveBlockedList sample_platform (localStorage ?full) (parse_textarea ''justicker'') =
      (False, sample_storage 10 None)"
    using failed typed by simp
  have written: \<open>JSON_stringify sample_platform (JArray [JString ''justicker'']) = ''["justicker"]''\<close>
    by (simp add: sample_platform_def)
  have roundtrip: "JSON_parse sample_platform (JSON_stringify sample_platform (JArray [JString ''justicker''])) =
     Inr (JArray [JString ''justicker''])"
    by (simp add: sample_platform_def)
  have roundtrip': "JSON_parse sample_platform
       (JSON_stringify sample_platform (JArray (map JString (normalised (parse_textarea ''justicker''))))) =
     Inr (JArray (map JString (normalised (parse_textarea ''justicker''))))"
    using roundtrip n by simp
  have nonempty: "JSON_stringify sample_platform
      (JArray (map JString (normalised (parse_textarea ''justicker'')))) \<noteq> []"
    using written n by simp
  have pass: "rows (fst (processListings sample_platform (after_reset ?s ?st'))) =
     [magius_row\<lparr>data_userscript_processed := Some ''true''\<rparr>,
      hideRow (justicker_row\<lparr>data_userscript_processed := Some ''true''\<rparr>)]"
    by (simp add: processListings_def after_reset_def sample_page_def string_evaluation
        blocklist_evaluation row_evaluation)
  have keys: "(\<lambda>x. canon (Some x)) ` set (parse_textarea ''justicker'') = {''justicker''}"
    using typed by (simp add: string_evaluation)
  from saveBtn_click_resets_and_rescans [OF inv go s roundtrip' nonempty] pass keys
  have "rows (fst (saveBtn_click sample_platform ''justicker'' False ?s)) =
     [magius_row\<lparr>data_userscript_processed := Some ''true''\<rparr>,
      hideRow (justicker_row\<lparr>data_userscript_processed := Some ''true''\<rparr>)] \<and>
     set (blockedSet (fst (saveBtn_click sample_platform ''justicker'' False ?s))) = {''justicker''}"
    by simp
  moreover from saveBtn_click_resets_and_rescans [OF inv' go f roundtrip' nonempty]
  have "saveBtn_click sample_platform ''justicker'' False ?full = (?full, None)"
    by simp
  moreover have "list_all markers_consistent [hidden_magius_row, justicker_row]"
    by (simp add: row_evaluation)
  ultimately show ?thesis
    using typed saved roundtrip written failed by blast
qed

end
